theory Spec2Isabelle
  imports Complex_Main
begin

section \<open>Data model\<close>

text \<open>
  A JavaScript value found in a numeric field of a product that was parsed from the JSON
  response: the field can be absent (\<open>undefined\<close>), \<open>null\<close>, or a number. JSON carries
  neither NaN nor an infinity, so a number is a finite value; it is modelled as an exact
  rational.
\<close>

datatype js_number = Undefined | Null | Num rat

text \<open>
  The interface \<open>Product\<close> of \<open>@/types/product\<close>. The interface declares
  \<open>final_score: number\<close>; the component \<open>ResultsDisplay\<close> nevertheless reads it with
  \<open>?? 0\<close>, so the field is kept as a \<open>js_number\<close>.
\<close>

record Product =
  product_name :: string
  price :: rat
  rating :: rat
  product_url :: string
  image_url :: string
  retailer :: string
  final_score :: js_number
  recommendation :: string
  discount :: "string option"

section \<open>JavaScript operators used by the components\<close>

text \<open>\<open>ToNumber\<close>: \<open>undefined\<close> becomes NaN (here \<open>None\<close>), \<open>null\<close> becomes 0.\<close>

fun ToNumber :: "js_number \<Rightarrow> rat option" where
  "ToNumber Undefined = None"
| "ToNumber Null = Some 0"
| "ToNumber (Num r) = Some r"

text \<open>\<open>a > b\<close>: false as soon as one operand is NaN.\<close>

definition js_gt :: "js_number \<Rightarrow> js_number \<Rightarrow> bool" where
  "js_gt a b =
     (case ToNumber a of
        None \<Rightarrow> False
      | Some x \<Rightarrow> (case ToNumber b of None \<Rightarrow> False | Some y \<Rightarrow> y < x))"

text \<open>\<open>a ?? d\<close> with a numeric default: the default replaces \<open>undefined\<close> and \<open>null\<close>.\<close>

fun nullish :: "js_number \<Rightarrow> rat \<Rightarrow> rat" where
  "nullish Undefined d = d"
| "nullish Null d = d"
| "nullish (Num r) d = r"

text \<open>\<open>a === m\<close> where \<open>m\<close> is a number: only a number equal to \<open>m\<close> is strictly equal to it.\<close>

fun strict_eq_num :: "js_number \<Rightarrow> rat \<Rightarrow> bool" where
  "strict_eq_num (Num r) m = (r = m)"
| "strict_eq_num Undefined m = False"
| "strict_eq_num Null m = False"

section \<open>The component AIRecommendation\<close>

text \<open>
  \<^verbatim>\<open>
  if (products.length === 0) return null;
  const bestDeal = products.reduce((best, current) =>
    current.final_score > best.final_score ? current : best
  , products[0]);
  \<close>
  The callback of \<open>reduce\<close>, then the selection; \<open>reduce\<close> with an initial value visits
  every element from index 0 on.
\<close>

definition reduce_cb :: "Product \<Rightarrow> Product \<Rightarrow> Product" where
  "reduce_cb best current =
     (if js_gt (final_score current) (final_score best) then current else best)"

definition AIRecommendation_bestDeal :: "Product list \<Rightarrow> Product option" where
  "AIRecommendation_bestDeal products =
     (case products of
        [] \<Rightarrow> None
      | p0 # _ \<Rightarrow> Some (foldl reduce_cb p0 products))"

section \<open>The component ResultsDisplay\<close>

text \<open>
  \<open>Object.values(products).flat().filter(Boolean)\<close>: the product arrays of all platforms,
  concatenated, without the entries that are \<open>null\<close> or \<open>undefined\<close> (an object is
  always truthy, whatever its fields hold).
\<close>

definition allProducts :: "(string \<times> Product option list) list \<Rightarrow> Product list" where
  "allProducts products = List.map_filter (\<lambda>e. e) (concat (map snd products))"

definition initialCount :: nat where
  "initialCount = 4"

definition displayedProducts :: "bool \<Rightarrow> Product list \<Rightarrow> Product list" where
  "displayedProducts expanded ps = (if expanded then ps else take initialCount ps)"

text \<open>
  \<^verbatim>\<open>
  let bestDeal = allProducts[0];
  let maxScore = allProducts[0]?.final_score ?? 0;
  allProducts.forEach((p) => {
    const currentScore = p.final_score ?? 0;
    if (currentScore > maxScore) { maxScore = currentScore; bestDeal = p; }
  });
  \<close>
  The loop state is the pair \<open>(bestDeal, maxScore)\<close>. The component returns its
  empty-state panel before this code when there is no product, which is the result
  \<open>None\<close> here.
\<close>

fun forEach_cb :: "Product \<times> rat \<Rightarrow> Product \<Rightarrow> Product \<times> rat" where
  "forEach_cb (bestDeal, maxScore) p =
     (let currentScore = nullish (final_score p) 0
      in if maxScore < currentScore then (p, currentScore) else (bestDeal, maxScore))"

definition ResultsDisplay_bestDeal :: "Product list \<Rightarrow> (Product \<times> rat) option" where
  "ResultsDisplay_bestDeal ps =
     (case ps of
        [] \<Rightarrow> None
      | p0 # _ \<Rightarrow> Some (foldl forEach_cb (p0, nullish (final_score p0) 0) ps))"

text \<open>\<open>highlighted={product.final_score === maxScore}\<close>, for each displayed card.\<close>

definition highlighted :: "rat \<Rightarrow> Product \<Rightarrow> bool" where
  "highlighted maxScore product = strict_eq_num (final_score product) maxScore"

definition highlightedCards :: "bool \<Rightarrow> Product list \<Rightarrow> Product list" where
  "highlightedCards expanded ps =
     (case ResultsDisplay_bestDeal ps of
        None \<Rightarrow> []
      | Some (bestDeal, maxScore) \<Rightarrow> filter (highlighted maxScore) (displayedProducts expanded ps))"

text \<open>\<open>p.final_score ?? 0\<close>, the score both the loop and its start value read.\<close>

definition score0 :: "Product \<Rightarrow> rat" where
  "score0 p = nullish (final_score p) 0"

text \<open>The record carries a number in \<open>final_score\<close>, as the interface \<open>Product\<close> declares.\<close>

definition scored :: "Product \<Rightarrow> bool" where
  "scored p = (case final_score p of Num r \<Rightarrow> True | Undefined \<Rightarrow> False | Null \<Rightarrow> False)"

section \<open>The deal scorer\<close>

text \<open>
  The scoring routine runs in the backend service (Python) and is not part of the sources.
  The README quotes its formula, three assignments; they are translated first. What the
  README does not show (the exclusion of invalid records, the least and largest price, the
  case of equal prices, the labels, the loop) follows the specification of the operation
  \<open>scoreAndRank\<close>.
\<close>

datatype error = ZeroDivisionError

text \<open>
  Python's \<open>/\<close> on floats raises on a zero divisor; HOL's division would return 0. The
  failure is a result of the model.
\<close>

definition checked_div :: "rat \<Rightarrow> rat \<Rightarrow> error + rat" where
  "checked_div a b = (if b = 0 then Inl ZeroDivisionError else Inr (a / b))"

text \<open>
  README, "Best Deal Scoring Formula":
  \<^verbatim>\<open>price_score = 1 - ((price - min_price) / (max_price - min_price))\<close>.
\<close>

definition price_score :: "rat \<Rightarrow> rat \<Rightarrow> rat \<Rightarrow> error + rat" where
  "price_score p min_price max_price =
     (case checked_div (p - min_price) (max_price - min_price) of
        Inl e \<Rightarrow> Inl e
      | Inr q \<Rightarrow> Inr (1 - q))"

text \<open>README: \<^verbatim>\<open>rating_score = rating / 5.0\<close> (step 3 of \<open>scoreAndRank\<close>).\<close>

definition rating_score :: "rat \<Rightarrow> rat" where
  "rating_score r = r / 5"

text \<open>
  README: \<^verbatim>\<open>final_score = (0.7 * price_score) + (0.3 * rating_score)\<close>
  (step 4 of \<open>scoreAndRank\<close>).
\<close>

definition final_score_of :: "rat \<Rightarrow> rat \<Rightarrow> rat" where
  "final_score_of ps rs = 7 / 10 * ps + 3 / 10 * rs"

text \<open>
  Modelled from the spec: step 2 of \<open>scoreAndRank\<close> (backend scorer, absent from the sources),
  \<open>priceScore = maxPrice == minPrice ? 1.0 : 1 - (price - minPrice) / (maxPrice - minPrice)\<close>.
  The branch for equal prices is the specification's; the other branch is the formula of
  the README.
\<close>

definition priceScore :: "rat \<Rightarrow> rat \<Rightarrow> rat \<Rightarrow> error + rat" where
  "priceScore minPrice maxPrice p =
     (if maxPrice = minPrice then Inr 1 else price_score p minPrice maxPrice)"

text \<open>
  Modelled from the spec: step 5 of \<open>scoreAndRank\<close>, the label thresholds
  (at least 0.8 "Excellent Deal", at least 0.6 "Good Value", else "Fair").
\<close>

definition recommendationLabel :: "rat \<Rightarrow> string" where
  "recommendationLabel s =
     (if 8 / 10 \<le> s then ''Excellent Deal''
      else if 6 / 10 \<le> s then ''Good Value''
      else ''Fair'')"

text \<open>Modelled from the spec: step 1 of \<open>scoreAndRank\<close>, the least price of a non-empty set of records.\<close>

definition minPrice :: "Product \<Rightarrow> Product list \<Rightarrow> rat" where
  "minPrice v vs = fold min (map price vs) (price v)"

text \<open>Modelled from the spec: step 1 of \<open>scoreAndRank\<close>, the largest price of a non-empty set of records.\<close>

definition maxPrice :: "Product \<Rightarrow> Product list \<Rightarrow> rat" where
  "maxPrice v vs = fold max (map price vs) (price v)"

text \<open>Modelled from the spec: steps 2 to 5 of \<open>scoreAndRank\<close> for one record.\<close>

definition scoreRecord :: "rat \<Rightarrow> rat \<Rightarrow> Product \<Rightarrow> error + Product" where
  "scoreRecord lo hi p =
     (case priceScore lo hi (price p) of
        Inl e \<Rightarrow> Inl e
      | Inr ps \<Rightarrow>
          (let s = final_score_of ps (rating_score (rating p))
           in Inr (p\<lparr>final_score := Num s, recommendation := recommendationLabel s\<rparr>)))"

text \<open>
  Modelled from the spec: the loop of \<open>scoreAndRank\<close> over the records, which stops at the
  first error as an exception would.
\<close>

fun scoreAll :: "rat \<Rightarrow> rat \<Rightarrow> Product list \<Rightarrow> error + Product list" where
  "scoreAll lo hi [] = Inr []"
| "scoreAll lo hi (p # ps) =
     (case scoreRecord lo hi p of
        Inl e \<Rightarrow> Inl e
      | Inr q \<Rightarrow> (case scoreAll lo hi ps of Inl e \<Rightarrow> Inl e | Inr qs \<Rightarrow> Inr (q # qs)))"

text \<open>
  Modelled from the spec: the input constraint of \<open>scoreAndRank\<close> (backend scorer, absent
  from the sources), "records with \<open>price <= 0\<close> are excluded before scoring".
\<close>

definition validRecords :: "Product list \<Rightarrow> Product list" where
  "validRecords products = filter (\<lambda>p. \<not> price p \<le> 0) products"

text \<open>
  Modelled from the spec: the operation \<open>scoreAndRank\<close> of the backend scorer (absent from
  the sources). Records with \<open>price <= 0\<close> are excluded first; the least and largest price
  are those of the remaining records; an input without a valid record yields no score and no
  error.
\<close>

definition scoreAndRank :: "Product list \<Rightarrow> error + Product list" where
  "scoreAndRank products =
     (case validRecords products of
        [] \<Rightarrow> Inr []
      | v # vs \<Rightarrow> scoreAll (minPrice v vs) (maxPrice v vs) (v # vs))"

section \<open>Sample records\<close>

text \<open>A record with the given name, price, rating and score, and empty presentation fields.\<close>

definition item :: "string \<Rightarrow> rat \<Rightarrow> rat \<Rightarrow> js_number \<Rightarrow> Product" where
  "item n p r s =
     \<lparr>product_name = n, price = p, rating = r, product_url = [], image_url = [],
      retailer = [], final_score = s, recommendation = [], discount = None\<rparr>"

text \<open>
  The example of the specification: prices 100, 50 and 75 with ratings 4.0, 3.0 and 4.5,
  before scoring and with the scores 0.24, 0.88 and 0.62 and their labels.
\<close>

definition example_products :: "Product list" where
  "example_products =
     [item ''A'' 100 4 Undefined, item ''B'' 50 3 Undefined, item ''C'' 75 (9 / 2) Undefined]"

definition example_scored :: "Product list" where
  "example_scored =
     [(item ''A'' 100 4 (Num (6 / 25)))\<lparr>recommendation := ''Fair''\<rparr>,
      (item ''B'' 50 3 (Num (22 / 25)))\<lparr>recommendation := ''Excellent Deal''\<rparr>,
      (item ''C'' 75 (9 / 2) (Num (31 / 50)))\<lparr>recommendation := ''Good Value''\<rparr>]"

section \<open>Selection by a strict comparison keeps the first maximum\<close>

text \<open>
  Both components fold a "replace when strictly greater" step over the list. The result of
  such a fold is either the start value, when no element beats it, or the first element that
  attains the largest key.
\<close>

lemma foldl_strict_max:
  fixes key :: "'a \<Rightarrow> rat"
  shows "(foldl (\<lambda>best cur. if key best < key cur then cur else best) b xs = b
            \<and> (\<forall>j<length xs. key (xs ! j) \<le> key b))
       \<or> (\<exists>i<length xs.
            foldl (\<lambda>best cur. if key best < key cur then cur else best) b xs = xs ! i
            \<and> key b < key (xs ! i)
            \<and> (\<forall>j<i. key (xs ! j) < key (xs ! i))
            \<and> (\<forall>j<length xs. key (xs ! j) \<le> key (xs ! i)))"
    (is "?P xs")
proof (induction xs rule: rev_induct)
  case Nil
  show ?case by simp
next
  case (snoc x xs)
  let ?f = "\<lambda>best cur. if key best < key cur then cur else best"
  let ?r = "foldl ?f b xs"
  have bound: "\<forall>j<length xs. key (xs ! j) \<le> key ?r" and ge: "key b \<le> key ?r"
    using snoc.IH by auto
  show ?case
  proof (cases "key ?r < key x")
    case True
    have res: "foldl ?f b (xs @ [x]) = (xs @ [x]) ! length xs"
      using True by simp
    have below: "\<forall>j<length xs. key ((xs @ [x]) ! j) < key ((xs @ [x]) ! length xs)"
      using bound True by (auto simp: nth_append)
    have all: "\<forall>j<length (xs @ [x]). key ((xs @ [x]) ! j) \<le> key ((xs @ [x]) ! length xs)"
      using bound True by (auto simp: nth_append less_Suc_eq)
    have "key b < key ((xs @ [x]) ! length xs)"
      using ge True by simp
    with res below all show ?thesis
      by (intro disjI2 exI [of _ "length xs"]) simp
  next
    case False
    have keep: "foldl ?f b (xs @ [x]) = ?r"
      using False by simp
    from snoc.IH show ?thesis
    proof (elim disjE conjE exE)
      assume "?r = b" and "\<forall>j<length xs. key (xs ! j) \<le> key b"
      then show ?thesis
        using False keep by (auto simp: nth_append less_Suc_eq)
    next
      fix i
      assume i: "i < length xs" "?r = xs ! i" "key b < key (xs ! i)"
        "\<forall>j<i. key (xs ! j) < key (xs ! i)" "\<forall>j<length xs. key (xs ! j) \<le> key (xs ! i)"
      have "\<forall>j<length (xs @ [x]). key ((xs @ [x]) ! j) \<le> key ((xs @ [x]) ! i)"
        using i False by (auto simp: nth_append less_Suc_eq)
      moreover have "\<forall>j<i. key ((xs @ [x]) ! j) < key ((xs @ [x]) ! i)"
        using i by (auto simp: nth_append)
      moreover have "foldl ?f b (xs @ [x]) = (xs @ [x]) ! i" "key b < key ((xs @ [x]) ! i)"
        using i keep by (auto simp: nth_append)
      ultimately show ?thesis
        using i(1) by (intro disjI2 exI [of _ i]) simp
    qed
  qed
qed

lemma foldl_forEach_cb:
  "foldl forEach_cb (b, score0 b) xs =
     (foldl (\<lambda>best cur. if score0 best < score0 cur then cur else best) b xs,
      score0 (foldl (\<lambda>best cur. if score0 best < score0 cur then cur else best) b xs))"
  by (induction xs rule: rev_induct) (simp_all add: score0_def Let_def)

lemma scored_iff: "scored p = (\<exists>r. final_score p = Num r)"
  by (cases "final_score p") (auto simp: scored_def)

lemma reduce_cb_Num:
  "final_score best = Num a \<Longrightarrow> final_score current = Num c \<Longrightarrow>
   reduce_cb best current = (if score0 best < score0 current then current else best)"
  by (simp add: reduce_cb_def js_gt_def score0_def)

lemma foldl_reduce_cb:
  assumes "\<forall>p\<in>set (b # xs). scored p"
  shows "foldl reduce_cb b xs = foldl (\<lambda>best cur. if score0 best < score0 cur then cur else best) b xs
       \<and> foldl reduce_cb b xs \<in> set (b # xs)"
  using assms
proof (induction xs rule: rev_induct)
  case Nil
  show ?case by simp
next
  case (snoc x xs)
  let ?g = "\<lambda>best cur. if score0 best < score0 cur then cur else best"
  from snoc have ih: "foldl reduce_cb b xs = foldl ?g b xs" "foldl reduce_cb b xs \<in> set (b # xs)"
    by auto
  obtain a where a: "final_score (foldl reduce_cb b xs) = Num a"
    using ih(2) snoc.prems by (auto simp: scored_iff)
  obtain c where c: "final_score x = Num c"
    using snoc.prems by (auto simp: scored_iff)
  have "reduce_cb (foldl reduce_cb b xs) x = ?g (foldl reduce_cb b xs) x"
    using reduce_cb_Num [OF a c] .
  then show ?case
    using ih by (auto split: if_splits)
qed

lemma ResultsDisplay_first_max:
  assumes "ps \<noteq> []"
  shows "\<exists>i<length ps. ResultsDisplay_bestDeal ps = Some (ps ! i, score0 (ps ! i))
           \<and> (\<forall>j<i. score0 (ps ! j) < score0 (ps ! i))
           \<and> (\<forall>j<length ps. score0 (ps ! j) \<le> score0 (ps ! i))"
proof -
  obtain p0 rest where ps: "ps = p0 # rest"
    using assms by (cases ps) auto
  let ?g = "\<lambda>best cur. if score0 best < score0 cur then cur else best"
  have res: "ResultsDisplay_bestDeal ps = Some (foldl ?g p0 ps, score0 (foldl ?g p0 ps))"
    using foldl_forEach_cb [of p0 ps] by (simp add: ResultsDisplay_bestDeal_def ps score0_def)
  from foldl_strict_max [of score0 p0 ps] show ?thesis
  proof (elim disjE conjE exE)
    assume "foldl ?g p0 ps = p0" and "\<forall>j<length ps. score0 (ps ! j) \<le> score0 p0"
    then show ?thesis
      using res ps by (intro exI [of _ 0]) simp
  next
    fix i
    assume "i < length ps" "foldl ?g p0 ps = ps ! i"
      "\<forall>j<i. score0 (ps ! j) < score0 (ps ! i)" "\<forall>j<length ps. score0 (ps ! j) \<le> score0 (ps ! i)"
    then show ?thesis
      using res by (intro exI [of _ i]) simp
  qed
qed

lemma AIRecommendation_first_max:
  assumes "ps \<noteq> []" and "\<forall>p\<in>set ps. scored p"
  shows "\<exists>i<length ps. AIRecommendation_bestDeal ps = Some (ps ! i)
           \<and> (\<forall>j<i. score0 (ps ! j) < score0 (ps ! i))
           \<and> (\<forall>j<length ps. score0 (ps ! j) \<le> score0 (ps ! i))"
proof -
  obtain p0 rest where ps: "ps = p0 # rest"
    using assms by (cases ps) auto
  let ?g = "\<lambda>best cur. if score0 best < score0 cur then cur else best"
  have "\<forall>p\<in>set (p0 # ps). scored p"
    using assms(2) ps by simp
  from foldl_reduce_cb [OF this]
  have res: "AIRecommendation_bestDeal ps = Some (foldl ?g p0 ps)"
    by (simp add: AIRecommendation_bestDeal_def ps)
  from foldl_strict_max [of score0 p0 ps] show ?thesis
  proof (elim disjE conjE exE)
    assume "foldl ?g p0 ps = p0" and "\<forall>j<length ps. score0 (ps ! j) \<le> score0 p0"
    then show ?thesis
      using res ps by (intro exI [of _ 0]) simp
  next
    fix i
    assume "i < length ps" "foldl ?g p0 ps = ps ! i"
      "\<forall>j<i. score0 (ps ! j) < score0 (ps ! i)" "\<forall>j<length ps. score0 (ps ! j) \<le> score0 (ps ! i)"
    then show ?thesis
      using res by (intro exI [of _ i]) simp
  qed
qed

lemma foldl_reduce_cb_mem: "foldl reduce_cb b xs \<in> set (b # xs)"
  by (induction xs rule: rev_induct) (auto simp: reduce_cb_def)

lemma highlighted_iff: "highlighted m = (\<lambda>p. final_score p = Num m)"
proof (rule ext)
  fix p show "highlighted m p = (final_score p = Num m)"
    by (cases "final_score p") (auto simp: highlighted_def)
qed

lemma first_max_index_unique:
  fixes f :: "nat \<Rightarrow> rat"
  assumes "k < n" "\<forall>j<k. f j < f k" "\<forall>j<n. f j \<le> f k"
    and "i < n" "\<forall>j<i. f j < f i" "\<forall>j<n. f j \<le> f i"
  shows "k = i"
proof -
  have eq: "f k = f i"
    using assms(1,3,4,6) by (meson order_antisym)
  have "\<not> i < k" "\<not> k < i"
    using assms(2,5) eq by auto
  then show ?thesis by simp
qed

lemma score0_not_Num: "\<forall>r. final_score b \<noteq> Num r \<Longrightarrow> score0 b = 0"
  by (cases "final_score b") (auto simp: score0_def)

lemma score0_Num: "final_score q = Num s \<Longrightarrow> score0 q = s"
  by (simp add: score0_def)

section \<open>The selection returns null exactly on the empty list\<close>

text \<open>
  Claim C3. The best-deal selection of \<open>AIRecommendation\<close> applied to the empty list
  yields null; it yields null only for the empty list; for every non-empty list it returns
  one of the records of the list.
\<close>

theorem AIRecommendation_bestDeal_null_iff_empty:
  "AIRecommendation_bestDeal [] = None
   \<and> ((AIRecommendation_bestDeal products = None) = (products = []))
   \<and> (products \<noteq> [] \<longrightarrow>
        (\<exists>r. AIRecommendation_bestDeal products = Some r \<and> r \<in> set products))"
proof (cases products)
  case Nil
  then show ?thesis by (simp add: AIRecommendation_bestDeal_def)
next
  case (Cons p0 rest)
  have "foldl reduce_cb p0 (p0 # rest) \<in> set (p0 # p0 # rest)"
    by (rule foldl_reduce_cb_mem)
  then show ?thesis
    using Cons by (auto simp: AIRecommendation_bestDeal_def)
qed

theorem AIRecommendation_bestDeal_null_iff_empty_witness:
  "AIRecommendation_bestDeal [] = None
   \<and> [item ''A'' 100 4 (Num (1 / 4))] \<noteq> []
   \<and> (\<exists>r. AIRecommendation_bestDeal [item ''A'' 100 4 (Num (1 / 4))] = Some r
          \<and> r \<in> set [item ''A'' 100 4 (Num (1 / 4))])"
  using AIRecommendation_bestDeal_null_iff_empty [of "[item ''A'' 100 4 (Num (1 / 4))]"]
  by simp

section \<open>Ties at the maximum score\<close>

text \<open>
  Claim C2, as stated, fails: with two records tied at the maximum score, the more
  expensive one first, both components pick the first record and not the cheaper one.
\<close>

theorem tie_break_prefers_first_not_cheapest:
  "final_score (item ''A'' 100 4 (Num (1 / 2))) = final_score (item ''B'' 50 4 (Num (1 / 2)))
   \<and> price (item ''B'' 50 4 (Num (1 / 2))) < price (item ''A'' 100 4 (Num (1 / 2)))
   \<and> AIRecommendation_bestDeal [item ''A'' 100 4 (Num (1 / 2)), item ''B'' 50 4 (Num (1 / 2))]
       = Some (item ''A'' 100 4 (Num (1 / 2)))
   \<and> ResultsDisplay_bestDeal [item ''A'' 100 4 (Num (1 / 2)), item ''B'' 50 4 (Num (1 / 2))]
       = Some (item ''A'' 100 4 (Num (1 / 2)), 1 / 2)"
  by (simp add: AIRecommendation_bestDeal_def ResultsDisplay_bestDeal_def reduce_cb_def Let_def
      js_gt_def item_def)

text \<open>
  Claim C2, amended. On a list whose records all carry a number as score, when the record
  at index \<open>i\<close> attains the maximum score and no earlier record has the same score, both
  components pick that record, whatever the prices are: ties are broken by input order.
\<close>

theorem tie_break_first_in_input_order:
  assumes typed: "\<forall>p\<in>set ps. scored p"
    and i: "i < length ps"
    and top: "\<forall>j<length ps. score0 (ps ! j) \<le> score0 (ps ! i)"
    and first: "\<forall>j<i. score0 (ps ! j) \<noteq> score0 (ps ! i)"
  shows "AIRecommendation_bestDeal ps = Some (ps ! i)
       \<and> ResultsDisplay_bestDeal ps = Some (ps ! i, score0 (ps ! i))"
proof -
  have ne: "ps \<noteq> []"
    using i by auto
  obtain a where a: "a < length ps" "AIRecommendation_bestDeal ps = Some (ps ! a)"
    "\<forall>j<a. score0 (ps ! j) < score0 (ps ! a)" "\<forall>j<length ps. score0 (ps ! j) \<le> score0 (ps ! a)"
    using AIRecommendation_first_max [OF ne typed] by blast
  obtain d where d: "d < length ps" "ResultsDisplay_bestDeal ps = Some (ps ! d, score0 (ps ! d))"
    "\<forall>j<d. score0 (ps ! j) < score0 (ps ! d)" "\<forall>j<length ps. score0 (ps ! j) \<le> score0 (ps ! d)"
    using ResultsDisplay_first_max [OF ne] by blast
  have uniq: "k = i" if k: "k < length ps" "\<forall>j<k. score0 (ps ! j) < score0 (ps ! k)"
    "\<forall>j<length ps. score0 (ps ! j) \<le> score0 (ps ! k)" for k
  proof -
    have eq: "score0 (ps ! k) = score0 (ps ! i)"
      using k(1,3) i top by (meson order_antisym)
    have "\<not> i < k"
      using k(2) eq by auto
    moreover have "\<not> k < i"
      using first eq by auto
    ultimately show ?thesis by simp
  qed
  from uniq [OF a(1,3,4)] uniq [OF d(1,3,4)] a(2) d(2) show ?thesis
    by simp
qed

theorem tie_break_first_in_input_order_witness:
  "final_score (item ''A'' 100 4 (Num (1 / 2))) = Num (1 / 2)
   \<and> final_score (item ''B'' 50 4 (Num (1 / 2))) = Num (1 / 2)
   \<and> AIRecommendation_bestDeal [item ''A'' 100 4 (Num (1 / 2)), item ''B'' 50 4 (Num (1 / 2))]
       = Some (item ''A'' 100 4 (Num (1 / 2)))
   \<and> ResultsDisplay_bestDeal [item ''A'' 100 4 (Num (1 / 2)), item ''B'' 50 4 (Num (1 / 2))]
       = Some (item ''A'' 100 4 (Num (1 / 2)), 1 / 2)"
proof -
  let ?ps = "[item ''A'' 100 4 (Num (1 / 2)), item ''B'' 50 4 (Num (1 / 2))]"
  have typed: "\<forall>p\<in>set ?ps. scored p"
    by (simp add: scored_def item_def)
  have i: "0 < length ?ps"
    by simp
  have top: "\<forall>j<length ?ps. score0 (?ps ! j) \<le> score0 (?ps ! 0)"
    by (simp add: score0_def item_def less_Suc_eq)
  have first: "\<forall>j<0. score0 (?ps ! j) \<noteq> score0 (?ps ! 0)"
    by simp
  from tie_break_first_in_input_order [OF typed i top first] show ?thesis
    by (simp add: score0_def item_def)
qed

text \<open>
  Claim C9, as stated, fails where a record has no score. In \<open>AIRecommendation\<close> a first
  record without a score is never replaced, so it is picked although two later records are
  tied at the maximum score. In \<open>ResultsDisplay\<close> a first record without a score counts
  as 0 and is picked before two later records tied at the maximum score 0, which are the
  cards the grid highlights.
\<close>

theorem unscored_head_is_picked_before_tied_maxima:
  "AIRecommendation_bestDeal
     [item ''A'' 100 4 Undefined, item ''B'' 50 4 (Num (9 / 10)), item ''C'' 70 4 (Num (9 / 10))]
     = Some (item ''A'' 100 4 Undefined)
   \<and> ResultsDisplay_bestDeal
     [item ''A'' 100 4 Undefined, item ''B'' 50 4 (Num 0), item ''C'' 70 4 (Num 0)]
     = Some (item ''A'' 100 4 Undefined, 0)
   \<and> highlightedCards False
     [item ''A'' 100 4 Undefined, item ''B'' 50 4 (Num 0), item ''C'' 70 4 (Num 0)]
     = [item ''B'' 50 4 (Num 0), item ''C'' 70 4 (Num 0)]"
  by (simp add: AIRecommendation_bestDeal_def ResultsDisplay_bestDeal_def reduce_cb_def
      js_gt_def highlightedCards_def highlighted_def displayedProducts_def initialCount_def
      item_def Let_def)

text \<open>
  Claim C9, amended. Counting a missing score as 0, the pick of \<open>ResultsDisplay\<close> is the
  first record in input order that attains the maximum: every record before the pick has a
  strictly lower score and no record has a higher one. On a list whose records all carry a
  number as score, \<open>AIRecommendation\<close> picks the same record. The grid highlights exactly
  the displayed products whose score is strictly equal to that maximum, and there is a list
  on which more than one card is highlighted.
\<close>

theorem first_maximum_picked_all_maxima_highlighted:
  assumes ne: "ps \<noteq> []"
  shows "(\<exists>i<length ps.
            ResultsDisplay_bestDeal ps = Some (ps ! i, score0 (ps ! i))
          \<and> (\<forall>j<i. score0 (ps ! j) < score0 (ps ! i))
          \<and> (\<forall>j<length ps. score0 (ps ! j) \<le> score0 (ps ! i))
          \<and> ((\<forall>p\<in>set ps. scored p) \<longrightarrow>
                AIRecommendation_bestDeal ps = Some (ps ! i))
          \<and> highlightedCards expanded ps =
                filter (\<lambda>p. final_score p = Num (score0 (ps ! i))) (displayedProducts expanded ps))
       \<and> (\<exists>qs. 1 < length (highlightedCards False qs))"
proof
  obtain d where d: "d < length ps" "ResultsDisplay_bestDeal ps = Some (ps ! d, score0 (ps ! d))"
    "\<forall>j<d. score0 (ps ! j) < score0 (ps ! d)" "\<forall>j<length ps. score0 (ps ! j) \<le> score0 (ps ! d)"
    using ResultsDisplay_first_max [OF ne] by blast
  have ai: "AIRecommendation_bestDeal ps = Some (ps ! d)"
    if typed: "\<forall>p\<in>set ps. scored p"
  proof -
    obtain a where a: "a < length ps" "AIRecommendation_bestDeal ps = Some (ps ! a)"
      "\<forall>j<a. score0 (ps ! j) < score0 (ps ! a)" "\<forall>j<length ps. score0 (ps ! j) \<le> score0 (ps ! a)"
      using AIRecommendation_first_max [OF ne typed] by blast
    have "a = d"
      using first_max_index_unique [of a "length ps" "\<lambda>j. score0 (ps ! j)" d] a d by simp
    then show ?thesis using a(2) by simp
  qed
  have hl: "highlightedCards expanded ps =
      filter (\<lambda>p. final_score p = Num (score0 (ps ! d))) (displayedProducts expanded ps)"
    using d(2) by (simp add: highlightedCards_def highlighted_iff)
  show "\<exists>i<length ps.
            ResultsDisplay_bestDeal ps = Some (ps ! i, score0 (ps ! i))
          \<and> (\<forall>j<i. score0 (ps ! j) < score0 (ps ! i))
          \<and> (\<forall>j<length ps. score0 (ps ! j) \<le> score0 (ps ! i))
          \<and> ((\<forall>p\<in>set ps. scored p) \<longrightarrow>
                AIRecommendation_bestDeal ps = Some (ps ! i))
          \<and> highlightedCards expanded ps =
                filter (\<lambda>p. final_score p = Num (score0 (ps ! i))) (displayedProducts expanded ps)"
    using d ai hl by (intro exI [of _ d]) simp
next
  have "1 < length (highlightedCards False
      [item ''A'' 100 4 (Num (1 / 2)), item ''B'' 50 4 (Num (1 / 2))])"
    by (simp add: highlightedCards_def ResultsDisplay_bestDeal_def highlighted_def
        displayedProducts_def initialCount_def item_def Let_def)
  then show "\<exists>qs. 1 < length (highlightedCards False qs)" ..
qed

theorem first_maximum_picked_all_maxima_highlighted_witness:
  "[item ''A'' 100 4 (Num (1 / 2)), item ''B'' 50 4 (Num (1 / 2))] \<noteq> []
   \<and> scored (item ''A'' 100 4 (Num (1 / 2)))
   \<and> scored (item ''B'' 50 4 (Num (1 / 2)))
   \<and> ResultsDisplay_bestDeal [item ''A'' 100 4 (Num (1 / 2)), item ''B'' 50 4 (Num (1 / 2))]
       = Some (item ''A'' 100 4 (Num (1 / 2)), 1 / 2)
   \<and> AIRecommendation_bestDeal [item ''A'' 100 4 (Num (1 / 2)), item ''B'' 50 4 (Num (1 / 2))]
       = Some (item ''A'' 100 4 (Num (1 / 2)))
   \<and> highlightedCards False [item ''A'' 100 4 (Num (1 / 2)), item ''B'' 50 4 (Num (1 / 2))]
       = [item ''A'' 100 4 (Num (1 / 2)), item ''B'' 50 4 (Num (1 / 2))]"
  using first_maximum_picked_all_maxima_highlighted
    [of "[item ''A'' 100 4 (Num (1 / 2)), item ''B'' 50 4 (Num (1 / 2))]" False]
  by (simp add: highlightedCards_def ResultsDisplay_bestDeal_def AIRecommendation_bestDeal_def
      reduce_cb_def js_gt_def highlighted_def scored_def
      displayedProducts_def initialCount_def item_def Let_def)

section \<open>Records without a score\<close>

text \<open>
  Claim C10. On every non-empty list the best-deal loop of \<open>ResultsDisplay\<close> produces a
  pick and a maximum, also when records lack a score. A missing score counts as 0: the
  maximum is the largest score-or-zero of the list, and a record without a score is picked
  only when no record of the list has a strictly positive score.
\<close>

theorem missing_score_counts_as_zero:
  assumes ne: "ps \<noteq> []"
  shows "\<exists>b m. ResultsDisplay_bestDeal ps = Some (b, m)
           \<and> b \<in> set ps
           \<and> m = nullish (final_score b) 0
           \<and> (\<forall>q\<in>set ps. nullish (final_score q) 0 \<le> m)
           \<and> ((\<forall>r. final_score b \<noteq> Num r) \<longrightarrow>
                (\<forall>q\<in>set ps. \<forall>s. final_score q = Num s \<longrightarrow> s \<le> 0))"
proof -
  obtain d where d: "d < length ps" "ResultsDisplay_bestDeal ps = Some (ps ! d, score0 (ps ! d))"
    "\<forall>j<length ps. score0 (ps ! j) \<le> score0 (ps ! d)"
    using ResultsDisplay_first_max [OF ne] by blast
  have le: "\<forall>q\<in>set ps. score0 q \<le> score0 (ps ! d)"
    using d(3) by (auto simp: in_set_conv_nth)
  have "\<forall>q\<in>set ps. \<forall>s. final_score q = Num s \<longrightarrow> s \<le> 0"
    if "\<forall>r. final_score (ps ! d) \<noteq> Num r"
    using le score0_not_Num [OF that] by (auto simp: score0_Num)
  then show ?thesis
    using d(1,2) le by (intro exI [of _ "ps ! d"] exI [of _ "score0 (ps ! d)"])
      (auto simp: score0_def)
qed

theorem missing_score_counts_as_zero_witness:
  "[item ''A'' 100 4 Undefined, item ''B'' 50 4 (Num (1 / 2)), item ''C'' 70 4 Null] \<noteq> []
   \<and> ResultsDisplay_bestDeal
        [item ''A'' 100 4 Undefined, item ''B'' 50 4 (Num (1 / 2)), item ''C'' 70 4 Null]
       = Some (item ''B'' 50 4 (Num (1 / 2)), 1 / 2)
   \<and> ResultsDisplay_bestDeal [item ''A'' 100 4 Undefined, item ''B'' 50 4 (Num (- 1 / 4))]
       = Some (item ''A'' 100 4 Undefined, 0)"
  using missing_score_counts_as_zero
    [of "[item ''A'' 100 4 Undefined, item ''B'' 50 4 (Num (1 / 2)), item ''C'' 70 4 Null]"]
  by (simp add: ResultsDisplay_bestDeal_def item_def Let_def)

section \<open>The rating threshold\<close>

text \<open>
  Claim C1, as stated, fails on the example of the specification (scores 0.24, 0.88 and
  0.62 for ratings 4.0, 3.0 and 4.5): both components pick the record with score 0.88,
  whose rating 3.0 is not above 3.5, although a record with rating 4.5 is in the list.
  Neither component reads the rating; the best deal of both is the highest score.
\<close>

theorem best_deal_ignores_rating_threshold:
  "AIRecommendation_bestDeal example_scored = Some (example_scored ! 1)
   \<and> ResultsDisplay_bestDeal example_scored = Some (example_scored ! 1, 22 / 25)
   \<and> rating (example_scored ! 1) = 3
   \<and> rating (example_scored ! 1) \<le> 7 / 2
   \<and> rating (example_scored ! 2) = 9 / 2
   \<and> 7 / 2 < rating (example_scored ! 2)"
  by (simp add: AIRecommendation_bestDeal_def ResultsDisplay_bestDeal_def reduce_cb_def
      js_gt_def example_scored_def item_def Let_def)

text \<open>
  Claim C1, amended. For every non-empty product list whose records all carry a number as
  score, both components return the same record of the list, and its score is the maximum
  over the entire list, whatever the ratings are: no rating filter is applied. So the pick
  has a rating of at most 3.5 whenever some record with such a rating scores strictly above
  every record rated above 3.5, and a rating above 3.5 whenever some record rated above 3.5
  scores strictly above every record with a rating of at most 3.5.
\<close>

theorem best_deal_is_maximum_whatever_the_rating:
  assumes ne: "ps \<noteq> []" and typed: "\<forall>p\<in>set ps. scored p"
  shows "\<exists>r. AIRecommendation_bestDeal ps = Some r
           \<and> ResultsDisplay_bestDeal ps = Some (r, score0 r)
           \<and> r \<in> set ps
           \<and> (\<forall>q\<in>set ps. score0 q \<le> score0 r)
           \<and> ((\<exists>l\<in>set ps. rating l \<le> 7 / 2
                  \<and> (\<forall>h\<in>set ps. 7 / 2 < rating h \<longrightarrow> score0 h < score0 l))
                \<longrightarrow> rating r \<le> 7 / 2)
           \<and> ((\<exists>h\<in>set ps. 7 / 2 < rating h
                  \<and> (\<forall>l\<in>set ps. rating l \<le> 7 / 2 \<longrightarrow> score0 l < score0 h))
                \<longrightarrow> 7 / 2 < rating r)"
proof -
  obtain a where a: "a < length ps" "AIRecommendation_bestDeal ps = Some (ps ! a)"
    "\<forall>j<a. score0 (ps ! j) < score0 (ps ! a)" "\<forall>j<length ps. score0 (ps ! j) \<le> score0 (ps ! a)"
    using AIRecommendation_first_max [OF ne typed] by blast
  obtain d where d: "d < length ps" "ResultsDisplay_bestDeal ps = Some (ps ! d, score0 (ps ! d))"
    "\<forall>j<d. score0 (ps ! j) < score0 (ps ! d)" "\<forall>j<length ps. score0 (ps ! j) \<le> score0 (ps ! d)"
    using ResultsDisplay_first_max [OF ne] by blast
  have "a = d"
    using first_max_index_unique [of a "length ps" "\<lambda>j. score0 (ps ! j)" d] a d by simp
  let ?r = "ps ! a"
  have mem: "?r \<in> set ps"
    using a(1) by simp
  have top: "\<forall>q\<in>set ps. score0 q \<le> score0 ?r"
    using a(4) by (auto simp: in_set_conv_nth)
  have low: "rating ?r \<le> 7 / 2"
    if ex: "\<exists>l\<in>set ps. rating l \<le> 7 / 2
          \<and> (\<forall>h\<in>set ps. 7 / 2 < rating h \<longrightarrow> score0 h < score0 l)"
  proof (rule ccontr)
    assume "\<not> rating ?r \<le> 7 / 2"
    then have high: "7 / 2 < rating ?r" by simp
    obtain l where l: "l \<in> set ps" "\<forall>h\<in>set ps. 7 / 2 < rating h \<longrightarrow> score0 h < score0 l"
      using ex by blast
    have "score0 ?r < score0 l" using l(2) mem high by blast
    moreover have "score0 l \<le> score0 ?r" using top l(1) by blast
    ultimately show False by simp
  qed
  have high: "7 / 2 < rating ?r"
    if ex: "\<exists>h\<in>set ps. 7 / 2 < rating h
          \<and> (\<forall>l\<in>set ps. rating l \<le> 7 / 2 \<longrightarrow> score0 l < score0 h)"
  proof (rule ccontr)
    assume "\<not> 7 / 2 < rating ?r"
    then have lowr: "rating ?r \<le> 7 / 2" by simp
    obtain h where h: "h \<in> set ps" "\<forall>l\<in>set ps. rating l \<le> 7 / 2 \<longrightarrow> score0 l < score0 h"
      using ex by blast
    have "score0 ?r < score0 h" using h(2) mem lowr by blast
    moreover have "score0 h \<le> score0 ?r" using top h(1) by blast
    ultimately show False by simp
  qed
  show ?thesis
    using a(2) d(2) \<open>a = d\<close> mem top low high by (intro exI [of _ ?r]) simp
qed

theorem best_deal_is_maximum_whatever_the_rating_witness:
  "[item ''L'' 60 3 (Num (1 / 5)), item ''H'' 75 (9 / 2) (Num (31 / 50))] \<noteq> []
   \<and> scored (item ''L'' 60 3 (Num (1 / 5)))
   \<and> scored (item ''H'' 75 (9 / 2) (Num (31 / 50)))
   \<and> AIRecommendation_bestDeal
        [item ''L'' 60 3 (Num (1 / 5)), item ''H'' 75 (9 / 2) (Num (31 / 50))]
       = Some (item ''H'' 75 (9 / 2) (Num (31 / 50)))
   \<and> ResultsDisplay_bestDeal
        [item ''L'' 60 3 (Num (1 / 5)), item ''H'' 75 (9 / 2) (Num (31 / 50))]
       = Some (item ''H'' 75 (9 / 2) (Num (31 / 50)), 31 / 50)
   \<and> 7 / 2 < rating (item ''H'' 75 (9 / 2) (Num (31 / 50)))"
proof -
  let ?ps = "[item ''L'' 60 3 (Num (1 / 5)), item ''H'' 75 (9 / 2) (Num (31 / 50))]"
  have ne: "?ps \<noteq> []"
    by simp
  have typed: "\<forall>p\<in>set ?ps. scored p"
    by (simp add: scored_def item_def)
  from best_deal_is_maximum_whatever_the_rating [OF ne typed] show ?thesis
    by (simp add: AIRecommendation_bestDeal_def ResultsDisplay_bestDeal_def reduce_cb_def
        js_gt_def scored_def item_def Let_def)
qed

text \<open>
  The comparison of \<open>AIRecommendation\<close> has no default for a missing score: a first
  record without one is kept against every later record.
\<close>

lemma AIRecommendation_keeps_unscored_head:
  "AIRecommendation_bestDeal [item ''A'' 100 4 Undefined, item ''B'' 50 4 (Num (9 / 10))]
     = Some (item ''A'' 100 4 Undefined)"
  by (simp add: AIRecommendation_bestDeal_def reduce_cb_def js_gt_def item_def)

section \<open>Facts about the deal scorer\<close>

text \<open>
  The formula of the README alone fails when the least and the largest price are equal;
  the branch of the specification is what keeps the price score defined there.
\<close>

lemma price_score_equal_bounds: "price_score p c c = Inl ZeroDivisionError"
  by (simp add: price_score_def checked_div_def)

lemma priceScore_value:
  "priceScore lo hi x = Inr (if hi = lo then 1 else 1 - (x - lo) / (hi - lo))"
  by (simp add: priceScore_def price_score_def checked_div_def)

lemma scoreRecord_value:
  "scoreRecord lo hi p =
     Inr (p\<lparr>final_score :=
              Num (final_score_of (if hi = lo then 1 else 1 - (price p - lo) / (hi - lo))
                     (rating_score (rating p))),
            recommendation :=
              recommendationLabel
                (final_score_of (if hi = lo then 1 else 1 - (price p - lo) / (hi - lo))
                   (rating_score (rating p)))\<rparr>)"
  by (simp add: scoreRecord_def priceScore_value Let_def)

lemma scoreAll_value:
  "scoreAll lo hi ps =
     Inr (map (\<lambda>p. p\<lparr>final_score :=
              Num (final_score_of (if hi = lo then 1 else 1 - (price p - lo) / (hi - lo))
                     (rating_score (rating p))),
            recommendation :=
              recommendationLabel
                (final_score_of (if hi = lo then 1 else 1 - (price p - lo) / (hi - lo))
                   (rating_score (rating p)))\<rparr>) ps)"
  by (induction ps) (simp_all add: scoreRecord_value)

lemma minPrice_Min: "minPrice v vs = Min (price ` set (v # vs))"
proof -
  have "minPrice v vs = Min (set (price v # map price vs))"
    unfolding minPrice_def by (rule Min.set_eq_fold [symmetric])
  then show ?thesis by simp
qed

lemma maxPrice_Max: "maxPrice v vs = Max (price ` set (v # vs))"
proof -
  have "maxPrice v vs = Max (set (price v # map price vs))"
    unfolding maxPrice_def by (rule Max.set_eq_fold [symmetric])
  then show ?thesis by simp
qed

lemma scoreAndRank_value:
  "scoreAndRank products =
     Inr (map (\<lambda>p. p\<lparr>final_score :=
              Num (final_score_of
                     (if Max (price ` set (validRecords products))
                          = Min (price ` set (validRecords products))
                      then 1
                      else 1 - (price p - Min (price ` set (validRecords products)))
                             / (Max (price ` set (validRecords products))
                                - Min (price ` set (validRecords products))))
                     (rating_score (rating p))),
            recommendation :=
              recommendationLabel
                (final_score_of
                     (if Max (price ` set (validRecords products))
                          = Min (price ` set (validRecords products))
                      then 1
                      else 1 - (price p - Min (price ` set (validRecords products)))
                             / (Max (price ` set (validRecords products))
                                - Min (price ` set (validRecords products))))
                     (rating_score (rating p)))\<rparr>)
           (validRecords products))"
proof (cases "validRecords products")
  case Nil
  then show ?thesis by (simp add: scoreAndRank_def)
next
  case (Cons v vs)
  show ?thesis
    unfolding scoreAndRank_def Cons list.case scoreAll_value minPrice_Min maxPrice_Max ..
qed

lemma scoreAndRank_example: "scoreAndRank example_products = Inr example_scored"
  by (simp add: example_products_def example_scored_def scoreAndRank_def validRecords_def
      minPrice_def maxPrice_def scoreRecord_def priceScore_def price_score_def checked_div_def final_score_of_def
      rating_score_def recommendationLabel_def item_def Let_def)

lemma price_term_bounds:
  fixes lo hi x :: rat
  assumes "lo \<le> x" "x \<le> hi"
  shows "0 \<le> (if hi = lo then 1 else 1 - (x - lo) / (hi - lo))"
    and "(if hi = lo then 1 else 1 - (x - lo) / (hi - lo)) \<le> 1"
proof -
  have "(x - lo) / (hi - lo) \<le> 1" if "hi \<noteq> lo"
  proof -
    have "0 < hi - lo" using assms that by simp
    then show ?thesis using assms by simp
  qed
  then show "0 \<le> (if hi = lo then 1 else 1 - (x - lo) / (hi - lo))"
    by simp
  have "0 \<le> (x - lo) / (hi - lo)" if "hi \<noteq> lo"
    using assms that by (intro divide_nonneg_nonneg) simp_all
  then show "(if hi = lo then 1 else 1 - (x - lo) / (hi - lo)) \<le> 1"
    by simp
qed

lemma price_term_mono:
  fixes lo hi x y :: rat
  assumes "lo \<le> x" "x \<le> y" "y \<le> hi"
  shows "(if hi = lo then 1 else 1 - (y - lo) / (hi - lo))
       \<le> (if hi = lo then 1 else 1 - (x - lo) / (hi - lo))"
proof (cases "hi = lo")
  case True
  then show ?thesis by simp
next
  case False
  then have "0 \<le> hi - lo" using assms by simp
  then have "(x - lo) / (hi - lo) \<le> (y - lo) / (hi - lo)"
    using assms(2) by (intro divide_right_mono) simp_all
  then show ?thesis using False by simp
qed

lemma final_score_of_bounds:
  assumes "0 \<le> ps" "ps \<le> 1" "0 \<le> r" "r \<le> 5"
  shows "0 \<le> final_score_of ps (rating_score r)" and "final_score_of ps (rating_score r) \<le> 1"
  using assms by (simp_all add: final_score_of_def rating_score_def)

lemma final_score_of_mono:
  assumes "ps' \<le> ps" "r' \<le> r"
  shows "final_score_of ps' (rating_score r') \<le> final_score_of ps (rating_score r)"
  using assms by (simp add: final_score_of_def rating_score_def)

lemma validRecords_bounds:
  assumes "p \<in> set (validRecords products)"
  shows "Min (price ` set (validRecords products)) \<le> price p"
    and "price p \<le> Max (price ` set (validRecords products))"
  using assms by simp_all

section \<open>The score of a record\<close>

text \<open>
  Claim C4. \<open>scoreAndRank\<close> returns the valid records with their prices and ratings
  unchanged, and the final score of every returned record is
  \<open>0.7 * priceScore + 0.3 * (rating / 5)\<close>, where \<open>priceScore\<close> is
  \<open>1 - (price - minPrice) / (maxPrice - minPrice)\<close> for the least and the largest price of
  the scored set, and 1 when these two are equal.
\<close>

theorem final_score_formula:
  "\<exists>out. scoreAndRank products = Inr out
     \<and> map price out = map price (validRecords products)
     \<and> map rating out = map rating (validRecords products)
     \<and> (\<forall>q\<in>set out.
          final_score q =
            Num (7 / 10 * (if Max (price ` set out) = Min (price ` set out) then 1
                           else 1 - (price q - Min (price ` set out))
                                    / (Max (price ` set out) - Min (price ` set out)))
                 + 3 / 10 * (rating q / 5)))"
proof -
  let ?P = "price ` set (validRecords products)"
  let ?F = "\<lambda>p. p\<lparr>final_score :=
              Num (final_score_of (if Max ?P = Min ?P then 1
                               else 1 - (price p - Min ?P) / (Max ?P - Min ?P))
                     (rating_score (rating p))),
            recommendation :=
              recommendationLabel
                (final_score_of (if Max ?P = Min ?P then 1
                             else 1 - (price p - Min ?P) / (Max ?P - Min ?P))
                   (rating_score (rating p)))\<rparr>"
  let ?out = "map ?F (validRecords products)"
  have out: "scoreAndRank products = Inr ?out"
    by (rule scoreAndRank_value)
  have prices: "map price ?out = map price (validRecords products)"
    and ratings: "map rating ?out = map rating (validRecords products)"
    by simp_all
  have P: "price ` set ?out = ?P"
    using prices by (metis set_map)
  have "\<forall>q\<in>set ?out.
          final_score q =
            Num (7 / 10 * (if Max (price ` set ?out) = Min (price ` set ?out) then 1
                           else 1 - (price q - Min (price ` set ?out))
                                    / (Max (price ` set ?out) - Min (price ` set ?out)))
                 + 3 / 10 * (rating q / 5))"
    unfolding P by (auto simp: final_score_of_def rating_score_def)
  with out prices ratings show ?thesis
    by blast
qed

theorem final_score_formula_witness:
  "scoreAndRank example_products = Inr example_scored
   \<and> map price example_scored = [100, 50, 75]
   \<and> map rating example_scored = [4, 3, 9 / 2]
   \<and> map final_score example_scored =
       [Num (7 / 10 * (1 - (100 - 50) / (100 - 50)) + 3 / 10 * (4 / 5)),
        Num (7 / 10 * (1 - (50 - 50) / (100 - 50)) + 3 / 10 * (3 / 5)),
        Num (7 / 10 * (1 - (75 - 50) / (100 - 50)) + 3 / 10 * ((9 / 2) / 5))]"
proof -
  obtain out where "scoreAndRank example_products = Inr out"
    using final_score_formula [of example_products] by blast
  then have "out = example_scored"
    by (simp add: scoreAndRank_example)
  then show ?thesis
    using \<open>scoreAndRank example_products = Inr out\<close>
    by (simp add: example_scored_def item_def)
qed

section \<open>Equal prices\<close>

text \<open>
  Claim C5. When all records of the input have the same price, the price score that
  \<open>scoreAndRank\<close> computes for every record it scores is 1, and every such record is
  scored with it. On no input at all does the price score, or \<open>scoreAndRank\<close>, end in a
  division by zero: the branch for equal prices is taken before the division.
\<close>

theorem equal_prices_priceScore_one:
  assumes same: "\<forall>p\<in>set products. price p = c"
  shows "(\<forall>v vs. validRecords products = v # vs \<longrightarrow>
            (\<forall>p\<in>set (v # vs).
               priceScore (minPrice v vs) (maxPrice v vs) (price p) = Inr 1))
       \<and> scoreAndRank products =
           Inr (map (\<lambda>p. p\<lparr>final_score := Num (final_score_of 1 (rating_score (rating p))),
                            recommendation :=
                              recommendationLabel (final_score_of 1 (rating_score (rating p)))\<rparr>)
                  (validRecords products))
       \<and> (\<forall>lo hi x. priceScore lo hi x \<noteq> Inl ZeroDivisionError)
       \<and> (\<forall>ps. scoreAndRank ps \<noteq> Inl ZeroDivisionError)"
proof -
  have bounds: "minPrice v vs = c \<and> maxPrice v vs = c"
    if V: "validRecords products = v # vs" for v vs
  proof -
    have "set (v # vs) \<subseteq> set products"
      using V [symmetric] by (simp add: validRecords_def)
    then have img: "price ` set (v # vs) = {c}"
      using same by auto
    show ?thesis
      unfolding minPrice_Min maxPrice_Max img by simp
  qed
  have one: "\<forall>v vs. validRecords products = v # vs \<longrightarrow>
            (\<forall>p\<in>set (v # vs).
               priceScore (minPrice v vs) (maxPrice v vs) (price p) = Inr 1)"
    using bounds by (simp add: priceScore_value)
  have run: "scoreAndRank products =
           Inr (map (\<lambda>p. p\<lparr>final_score := Num (final_score_of 1 (rating_score (rating p))),
                            recommendation :=
                              recommendationLabel (final_score_of 1 (rating_score (rating p)))\<rparr>)
                  (validRecords products))"
  proof (cases "validRecords products")
    case Nil
    then show ?thesis by (simp add: scoreAndRank_def)
  next
    case (Cons v vs)
    show ?thesis
      using bounds [OF Cons] by (simp add: scoreAndRank_def Cons scoreAll_value)
  qed
  have guard: "\<forall>lo hi x. priceScore lo hi x \<noteq> Inl ZeroDivisionError"
    by (simp add: priceScore_value)
  have total: "\<forall>ps. scoreAndRank ps \<noteq> Inl ZeroDivisionError"
    by (simp add: scoreAndRank_value)
  from one run guard total show ?thesis
    by blast
qed

theorem equal_prices_priceScore_one_witness:
  "price (item ''A'' 80 4 Undefined) = 80
   \<and> price (item ''B'' 80 3 Undefined) = 80
   \<and> validRecords [item ''A'' 80 4 Undefined, item ''B'' 80 3 Undefined]
       = [item ''A'' 80 4 Undefined, item ''B'' 80 3 Undefined]
   \<and> priceScore (minPrice (item ''A'' 80 4 Undefined) [item ''B'' 80 3 Undefined])
        (maxPrice (item ''A'' 80 4 Undefined) [item ''B'' 80 3 Undefined]) 80 = Inr 1
   \<and> scoreAndRank [item ''A'' 80 4 Undefined, item ''B'' 80 3 Undefined] =
       Inr [(item ''A'' 80 4 (Num (47 / 50)))\<lparr>recommendation := ''Excellent Deal''\<rparr>,
            (item ''B'' 80 3 (Num (22 / 25)))\<lparr>recommendation := ''Excellent Deal''\<rparr>]"
proof -
  have same: "\<forall>p\<in>set [item ''A'' 80 4 Undefined, item ''B'' 80 3 Undefined]. price p = 80"
    by (simp add: item_def)
  have valid: "validRecords [item ''A'' 80 4 Undefined, item ''B'' 80 3 Undefined]
       = [item ''A'' 80 4 Undefined, item ''B'' 80 3 Undefined]"
    by (simp add: validRecords_def item_def)
  from equal_prices_priceScore_one [OF same] valid show ?thesis
    by (simp add: item_def final_score_of_def rating_score_def recommendationLabel_def)
qed

section \<open>Range of the final score\<close>

text \<open>
  Claim C6. For every non-empty list of valid records (price above 0, rating between 0 and
  5), \<open>scoreAndRank\<close> returns a score for each record, and every returned final score
  lies between 0 and 1.
\<close>

theorem final_score_in_unit_interval:
  assumes ne: "products \<noteq> []"
    and valid: "\<forall>p\<in>set products. 0 < price p \<and> 0 \<le> rating p \<and> rating p \<le> 5"
  shows "\<exists>out. scoreAndRank products = Inr out
           \<and> length out = length products
           \<and> (\<forall>q\<in>set out. \<exists>s. final_score q = Num s \<and> 0 \<le> s \<and> s \<le> 1)"
proof -
  let ?P = "price ` set (validRecords products)"
  let ?S = "\<lambda>p. final_score_of (if Max ?P = Min ?P then 1
                               else 1 - (price p - Min ?P) / (Max ?P - Min ?P))
                     (rating_score (rating p))"
  let ?out = "map (\<lambda>p. p\<lparr>final_score := Num (?S p),
                           recommendation := recommendationLabel (?S p)\<rparr>)
                (validRecords products)"
  have out: "scoreAndRank products = Inr ?out"
    by (rule scoreAndRank_value)
  have all: "validRecords products = products"
    unfolding validRecords_def using valid by (intro filter_True) auto
  have len: "length ?out = length products"
    using all by simp
  have range: "0 \<le> ?S p \<and> ?S p \<le> 1" if p: "p \<in> set (validRecords products)" for p
  proof -
    have r: "0 \<le> rating p" "rating p \<le> 5"
      using p valid all by auto
    note b = validRecords_bounds [OF p]
    show ?thesis
      using final_score_of_bounds [OF price_term_bounds [OF b] r] by simp
  qed
  have "\<forall>q\<in>set ?out. \<exists>s. final_score q = Num s \<and> 0 \<le> s \<and> s \<le> 1"
    using range by auto
  with out len show ?thesis
    by blast
qed

theorem final_score_in_unit_interval_witness:
  "example_products \<noteq> []
   \<and> scoreAndRank example_products = Inr example_scored
   \<and> map final_score example_scored = [Num (6 / 25), Num (22 / 25), Num (31 / 50)]
   \<and> (0::rat) \<le> 6 / 25 \<and> (22 / 25::rat) \<le> 1"
proof -
  have ne: "example_products \<noteq> []"
    by (simp add: example_products_def)
  have valid: "\<forall>p\<in>set example_products. 0 < price p \<and> 0 \<le> rating p \<and> rating p \<le> 5"
    by (simp add: example_products_def item_def)
  from final_score_in_unit_interval [OF ne valid] show ?thesis
    by (simp add: scoreAndRank_example example_scored_def item_def ne)
qed

section \<open>Monotonicity\<close>

text \<open>
  Claim C7. For two records of one scored set, the one whose price is lower or equal and
  whose rating is higher or equal never has the lower final score. Equal ratings give the
  monotonicity in the price alone, equal prices the monotonicity in the rating alone.
\<close>

theorem final_score_monotone:
  assumes run: "scoreAndRank products = Inr out"
    and a: "a \<in> set out" and b: "b \<in> set out"
    and cheaper: "price a \<le> price b" and better: "rating b \<le> rating a"
  shows "\<exists>s t. final_score a = Num s \<and> final_score b = Num t \<and> t \<le> s"
proof -
  let ?P = "price ` set (validRecords products)"
  let ?S = "\<lambda>p. final_score_of (if Max ?P = Min ?P then 1
                               else 1 - (price p - Min ?P) / (Max ?P - Min ?P))
                     (rating_score (rating p))"
  let ?F = "\<lambda>p. p\<lparr>final_score := Num (?S p), recommendation := recommendationLabel (?S p)\<rparr>"
  have out: "out = map ?F (validRecords products)"
    using run scoreAndRank_value [of products] by simp
  obtain p where p: "p \<in> set (validRecords products)" "a = ?F p"
    using a unfolding out by auto
  obtain q where q: "q \<in> set (validRecords products)" "b = ?F q"
    using b unfolding out by auto
  have pq: "price p \<le> price q" "rating q \<le> rating p"
    using cheaper better p(2) q(2) by simp_all
  have "(if Max ?P = Min ?P then 1 else 1 - (price q - Min ?P) / (Max ?P - Min ?P))
      \<le> (if Max ?P = Min ?P then 1 else 1 - (price p - Min ?P) / (Max ?P - Min ?P))"
    using price_term_mono [OF validRecords_bounds(1) [OF p(1)] pq(1) validRecords_bounds(2) [OF q(1)]] .
  then have "?S q \<le> ?S p"
    using pq(2) by (rule final_score_of_mono)
  moreover have "final_score a = Num (?S p)" "final_score b = Num (?S q)"
    using p(2) q(2) by simp_all
  ultimately show ?thesis
    by blast
qed

theorem final_score_monotone_witness:
  "scoreAndRank example_products = Inr example_scored
   \<and> price (example_scored ! 2) = 75 \<and> price (example_scored ! 0) = 100
   \<and> rating (example_scored ! 2) = 9 / 2 \<and> rating (example_scored ! 0) = 4
   \<and> final_score (example_scored ! 2) = Num (31 / 50)
   \<and> final_score (example_scored ! 0) = Num (6 / 25)"
proof -
  have a: "example_scored ! 2 \<in> set example_scored"
    and b: "example_scored ! 0 \<in> set example_scored"
    by (simp_all add: example_scored_def)
  have cheaper: "price (example_scored ! 2) \<le> price (example_scored ! 0)"
    and better: "rating (example_scored ! 0) \<le> rating (example_scored ! 2)"
    by (simp_all add: example_scored_def item_def)
  from final_score_monotone [OF scoreAndRank_example a b cheaper better] show ?thesis
    by (simp add: scoreAndRank_example example_scored_def item_def)
qed

section \<open>Records with a non-positive price\<close>

text \<open>
  The frontend takes the scored records as they come: \<open>filter(Boolean)\<close> in
  \<open>ResultsDisplay\<close> removes the entries that are \<open>null\<close> or \<open>undefined\<close> and
  nothing else, so it would keep a record with a non-positive price. The exclusion of
  such records belongs to the scorer.
\<close>

lemma set_map_filter_id: "set (List.map_filter (\<lambda>e. e) xs) = {p. Some p \<in> set xs}"
  by (induction xs) (auto split: option.splits)

lemma allProducts_set:
  "set (allProducts products) = {p. \<exists>e\<in>set products. Some p \<in> set (snd e)}"
  by (auto simp: allProducts_def set_map_filter_id)

lemma allProducts_keeps_nonpositive_price:
  "allProducts [(''Amazon'', [Some (item ''Z'' 0 5 (Num 1)), None]),
                (''Croma'', [Some (item ''N'' (- 5) 2 Undefined)])]
   = [item ''Z'' 0 5 (Num 1), item ''N'' (- 5) 2 Undefined]"
  by (simp add: allProducts_def List.map_filter_def)

text \<open>
  Claim C8. \<open>scoreAndRank\<close> never fails; every record it returns has a positive price
  and a score; and, the score and the label apart, the returned records are the input
  records whose price is not \<open><= 0\<close>, each once and in input order.
\<close>

theorem nonpositive_prices_dropped:
  "\<exists>out. scoreAndRank products = Inr out
     \<and> (\<forall>q\<in>set out. 0 < price q \<and> scored q)
     \<and> map (\<lambda>q. q\<lparr>final_score := Undefined, recommendation := []\<rparr>) out
       = map (\<lambda>p. p\<lparr>final_score := Undefined, recommendation := []\<rparr>)
           (filter (\<lambda>p. \<not> price p \<le> 0) products)"
proof -
  let ?P = "price ` set (validRecords products)"
  let ?S = "\<lambda>p. final_score_of (if Max ?P = Min ?P then 1
                               else 1 - (price p - Min ?P) / (Max ?P - Min ?P))
                     (rating_score (rating p))"
  let ?F = "\<lambda>p. p\<lparr>final_score := Num (?S p), recommendation := recommendationLabel (?S p)\<rparr>"
  let ?out = "map ?F (validRecords products)"
  have out: "scoreAndRank products = Inr ?out"
    by (rule scoreAndRank_value)
  have "\<forall>q\<in>set ?out. 0 < price q \<and> scored q"
    by (auto simp: validRecords_def scored_def)
  moreover have "map (\<lambda>q. q\<lparr>final_score := Undefined, recommendation := []\<rparr>) ?out
       = map (\<lambda>p. p\<lparr>final_score := Undefined, recommendation := []\<rparr>)
           (filter (\<lambda>p. \<not> price p \<le> 0) products)"
    by (simp add: validRecords_def)
  ultimately show ?thesis
    using out by blast
qed

theorem nonpositive_prices_dropped_witness:
  "scoreAndRank [item ''A'' 100 4 Undefined, item ''Z'' 0 5 Undefined,
                 item ''N'' (- 5) 2 Undefined, item ''B'' 50 3 Undefined]
   = Inr [(item ''A'' 100 4 (Num (6 / 25)))\<lparr>recommendation := ''Fair''\<rparr>,
          (item ''B'' 50 3 (Num (22 / 25)))\<lparr>recommendation := ''Excellent Deal''\<rparr>]"
  using nonpositive_prices_dropped
    [of "[item ''A'' 100 4 Undefined, item ''Z'' 0 5 Undefined,
          item ''N'' (- 5) 2 Undefined, item ''B'' 50 3 Undefined]"]
  by (simp add: scoreAndRank_def validRecords_def
      minPrice_def maxPrice_def scoreRecord_def priceScore_def price_score_def checked_div_def final_score_of_def
      rating_score_def recommendationLabel_def item_def Let_def)

end
